theory Spec2Isabelle
  imports Main "HOL-Library.AList"
begin

section \<open>The vocabulary table of \<^verbatim>\<open>texar/data/vocabulary.py\<close>\<close>

text \<open>
  Token strings are \<^typ>\<open>string\<close>, ids are Python integers (\<^typ>\<open>int\<close>). A Python
  dictionary keeps its keys in insertion order and unique, and assigning to a key that is
  already there replaces the value in place: this is an association list changed with
  \<^const>\<open>AList.update\<close>. Its length is what \<^verbatim>\<open>len\<close> returns.
\<close>

subsection \<open>\<^verbatim>\<open>collections.defaultdict\<close>\<close>

record ('k, 'v) defaultdict =
  default_factory :: 'v
  items :: "('k \<times> 'v) list"

text \<open>\<^verbatim>\<open>d[k] = v\<close> (the source names the dictionary \<^verbatim>\<open>dict_\<close>)\<close>

definition setitem :: "('k, 'v) defaultdict \<Rightarrow> 'k \<Rightarrow> 'v \<Rightarrow> ('k, 'v) defaultdict" where
  "setitem d k v = d\<lparr>items := AList.update k v (items d)\<rparr>"

text \<open>
  \<^verbatim>\<open>d[k]\<close>: a key that is missing is inserted with the default value, which is
  returned; so the read returns the dictionary as well.
\<close>

definition getitem :: "('k, 'v) defaultdict \<Rightarrow> 'k \<Rightarrow> 'v \<times> ('k, 'v) defaultdict" where
  "getitem d k =
     (case map_of (items d) k of
        Some v \<Rightarrow> (v, d)
      | None \<Rightarrow> (default_factory d, setitem d k (default_factory d)))"

text \<open>\<^verbatim>\<open>len(d)\<close>\<close>

definition len :: "('k, 'v) defaultdict \<Rightarrow> nat" where
  "len d = length (items d)"

text \<open>\<^verbatim>\<open>np.arange(n)\<close>\<close>

definition arange :: "nat \<Rightarrow> int list" where
  "arange n = map int [0..<n]"

text \<open>
  \<^verbatim>\<open>_make_defaultdict\<close>: the loop \<^verbatim>\<open>for k, v in zip(keys, values): d[k] = v\<close>
  over a new dictionary whose factory returns \<^verbatim>\<open>default_value\<close>.
\<close>

definition make_defaultdict :: "'k list \<Rightarrow> 'v list \<Rightarrow> 'v \<Rightarrow> ('k, 'v) defaultdict" where
  "make_defaultdict keys values default_value =
     fold (\<lambda>(k, v) d. setitem d k v) (zip keys values)
       \<lparr>default_factory = default_value, items = []\<rparr>"

subsection \<open>Special tokens\<close>

definition PAD :: string where "PAD = ''<PAD>''"
definition BOS :: string where "BOS = ''<BOS>''"
definition EOS :: string where "EOS = ''<EOS>''"
definition UNK :: string where "UNK = ''<UNK>''"

subsection \<open>The class \<^verbatim>\<open>Vocab\<close>\<close>

text \<open>
  The fields are the attributes \<^verbatim>\<open>_filename\<close>, \<^verbatim>\<open>_pad_token\<close>, ...,
  \<^verbatim>\<open>_token_to_id_map_py\<close>; each one is returned unchanged by the property of the same
  name without the underscore, so the selectors are these properties.
\<close>

record Vocab =
  filename :: string
  pad_token :: string
  bos_token :: string
  eos_token :: string
  unk_token :: string
  id_to_token_map_py :: "(int, string) defaultdict"
  token_to_id_map_py :: "(string, int) defaultdict"

text \<open>
  The files that can be opened, each with the list
  \<^verbatim>\<open>list(line.strip() for line in vocab_file)\<close> of its stripped lines; \<^verbatim>\<open>open\<close>
  raises for any other name.
\<close>

type_synonym filesystem = "string \<Rightarrow> string list option"

datatype error = IOError | ValueError string

definition quoted :: "string \<Rightarrow> string" where
  "quoted s = [CHR 0x27] @ s @ [CHR 0x27]"

text \<open>
  \<^verbatim>\<open>load\<close>, with the four attributes of \<^verbatim>\<open>self\<close> that it reads. The checks are in
  the order of the source: begin-of-sequence, end-of-sequence, unknown, padding.
\<close>

definition load ::
  "filesystem \<Rightarrow> string \<Rightarrow> string \<Rightarrow> string \<Rightarrow> string \<Rightarrow> string
     \<Rightarrow> error + ((int, string) defaultdict \<times> (string, int) defaultdict)" where
  "load fs self_pad_token self_bos_token self_eos_token self_unk_token fname =
     (case fs fname of
        None \<Rightarrow> Inl IOError
      | Some vocab0 \<Rightarrow>
          if self_bos_token \<in> set vocab0 then
            Inl (ValueError (''Special begin-of-seq token already exists in the vocabulary: ''
                             @ quoted self_bos_token))
          else if self_eos_token \<in> set vocab0 then
            Inl (ValueError (''Special end-of-seq token already exists in the vocabulary: ''
                             @ quoted self_eos_token))
          else if self_unk_token \<in> set vocab0 then
            Inl (ValueError (''Special UNK token already exists in the vocabulary: ''
                             @ quoted self_unk_token))
          else if self_pad_token \<in> set vocab0 then
            Inl (ValueError (''Special padding token already exists in the vocabulary: ''
                             @ quoted self_pad_token))
          else
            let vocab = [self_pad_token, self_bos_token, self_eos_token, self_unk_token] @ vocab0;
                unk_token_idx = 3;
                vocab_size = length vocab;
                vocab_idx = arange vocab_size;
                id_to_token_map = make_defaultdict vocab_idx vocab self_unk_token;
                token_to_id_map = make_defaultdict vocab vocab_idx unk_token_idx
            in Inr (id_to_token_map, token_to_id_map))"

text \<open>\<^verbatim>\<open>Vocab.__init__\<close>\<close>

definition Vocab_init ::
  "filesystem \<Rightarrow> string \<Rightarrow> string \<Rightarrow> string \<Rightarrow> string \<Rightarrow> string \<Rightarrow> error + Vocab" where
  "Vocab_init fs fname pad bos eos unk =
     (case load fs pad bos eos unk fname of
        Inl e \<Rightarrow> Inl e
      | Inr (i2t, t2i) \<Rightarrow>
          Inr \<lparr>filename = fname, pad_token = pad, bos_token = bos, eos_token = eos,
               unk_token = unk, id_to_token_map_py = i2t, token_to_id_map_py = t2i\<rparr>)"

text \<open>
  The properties that read the token-to-id dictionary with \<^verbatim>\<open>[...]\<close>. The read may
  insert the key, so each returns the object too.
\<close>

definition token_id :: "Vocab \<Rightarrow> string \<Rightarrow> int \<times> Vocab" where
  "token_id self tok =
     (case getitem (token_to_id_map_py self) tok of
        (i, m) \<Rightarrow> (i, self\<lparr>token_to_id_map_py := m\<rparr>))"

definition bos_token_id :: "Vocab \<Rightarrow> int \<times> Vocab" where
  "bos_token_id self = token_id self (bos_token self)"

definition eos_token_id :: "Vocab \<Rightarrow> int \<times> Vocab" where
  "eos_token_id self = token_id self (eos_token self)"

definition unk_token_id :: "Vocab \<Rightarrow> int \<times> Vocab" where
  "unk_token_id self = token_id self (unk_token self)"

definition pad_token_id :: "Vocab \<Rightarrow> int \<times> Vocab" where
  "pad_token_id self = token_id self (pad_token self)"

text \<open>The property \<^verbatim>\<open>size\<close>\<close>

definition Vocab_size :: "Vocab \<Rightarrow> nat" where
  "Vocab_size self = len (token_to_id_map_py self)"

definition special_tokens :: "Vocab \<Rightarrow> string list" where
  "special_tokens self = [pad_token self, bos_token self, eos_token self, unk_token self]"

subsection \<open>Lookups\<close>

text \<open>A token, an id, or a sequence nested to any depth.\<close>

datatype 'a nested = Scalar 'a | Sequence "'a nested list"

text \<open>
  Modelled from the spec: \<^verbatim>\<open>dict_lookup\<close> of \<^verbatim>\<open>texar/utils/utils.py\<close>, which is
  imported by the vocabulary module and is not among the sources. The specification
  gives it as a recursive dispatcher over scalar and sequence that recurses into the
  elements of a sequence and, at a leaf, returns the mapped value if the key is present
  and the default otherwise, without changing the dictionary.
\<close>

fun dict_lookup :: "('k, 'v) defaultdict \<Rightarrow> 'k nested \<Rightarrow> 'v \<Rightarrow> 'v nested" where
  "dict_lookup d (Scalar x) dflt =
     Scalar (case map_of (items d) x of Some v \<Rightarrow> v | None \<Rightarrow> dflt)"
| "dict_lookup d (Sequence xs) dflt =
     Sequence (map (\<lambda>x. dict_lookup d x dflt) xs)"

definition map_ids_to_tokens_py :: "Vocab \<Rightarrow> int nested \<Rightarrow> string nested" where
  "map_ids_to_tokens_py self ids = dict_lookup (id_to_token_map_py self) ids (unk_token self)"

text \<open>
  The default is read through the property \<^verbatim>\<open>unk_token_id\<close>; the dictionary handed to
  the lookup is the same object, so it is the one left by that read.
\<close>

definition map_tokens_to_ids_py :: "Vocab \<Rightarrow> string nested \<Rightarrow> int nested \<times> Vocab" where
  "map_tokens_to_ids_py self tokens =
     (case unk_token_id self of
        (unk_id, self') \<Rightarrow> (dict_lookup (token_to_id_map_py self') tokens unk_id, self'))"

text \<open>The shape of a nested value: the value with its leaves forgotten.\<close>

definition shape :: "'a nested \<Rightarrow> unit nested" where
  "shape x = map_nested (\<lambda>_. ()) x"

subsection \<open>Example files\<close>

text \<open>
  Four vocabulary files: two distinct tokens, a token listed twice, a file that lists
  the default begin-of-sequence token, and an empty file.
\<close>

definition example_fs :: filesystem where
  "example_fs =
     [''vocab.txt'' \<mapsto> [''cat'', ''dog''],
      ''dup.txt'' \<mapsto> [''a'', ''a''],
      ''bos.txt'' \<mapsto> [''a'', ''<BOS>''],
      ''empty.txt'' \<mapsto> []]"

text \<open>The tables the constructor builds from them (see the lemmas below).\<close>

definition cat_dog_vocab :: Vocab where
  "cat_dog_vocab =
     \<lparr>filename = ''vocab.txt'', pad_token = ''<PAD>'', bos_token = ''<BOS>'',
      eos_token = ''<EOS>'', unk_token = ''<UNK>'',
      id_to_token_map_py =
        \<lparr>default_factory = ''<UNK>'',
         items = [(0, ''<PAD>''), (1, ''<BOS>''), (2, ''<EOS>''), (3, ''<UNK>''),
                  (4, ''cat''), (5, ''dog'')]\<rparr>,
      token_to_id_map_py =
        \<lparr>default_factory = 3,
         items = [(''<PAD>'', 0), (''<BOS>'', 1), (''<EOS>'', 2), (''<UNK>'', 3),
                  (''cat'', 4), (''dog'', 5)]\<rparr>\<rparr>"

definition dup_vocab :: Vocab where
  "dup_vocab =
     \<lparr>filename = ''dup.txt'', pad_token = ''<PAD>'', bos_token = ''<BOS>'',
      eos_token = ''<EOS>'', unk_token = ''<UNK>'',
      id_to_token_map_py =
        \<lparr>default_factory = ''<UNK>'',
         items = [(0, ''<PAD>''), (1, ''<BOS>''), (2, ''<EOS>''), (3, ''<UNK>''),
                  (4, ''a''), (5, ''a'')]\<rparr>,
      token_to_id_map_py =
        \<lparr>default_factory = 3,
         items = [(''<PAD>'', 0), (''<BOS>'', 1), (''<EOS>'', 2), (''<UNK>'', 3),
                  (''a'', 5)]\<rparr>\<rparr>"

text \<open>The empty file read with the same string for two special tokens.\<close>

definition shared_pad_vocab :: Vocab where
  "shared_pad_vocab =
     \<lparr>filename = ''empty.txt'', pad_token = ''<s>'', bos_token = ''<s>'',
      eos_token = ''<EOS>'', unk_token = ''<UNK>'',
      id_to_token_map_py =
        \<lparr>default_factory = ''<UNK>'',
         items = [(0, ''<s>''), (1, ''<s>''), (2, ''<EOS>''), (3, ''<UNK>'')]\<rparr>,
      token_to_id_map_py =
        \<lparr>default_factory = 3,
         items = [(''<s>'', 1), (''<EOS>'', 2), (''<UNK>'', 3)]\<rparr>\<rparr>"

definition pad_unk_vocab :: Vocab where
  "pad_unk_vocab =
     \<lparr>filename = ''empty.txt'', pad_token = ''x'', bos_token = ''<BOS>'',
      eos_token = ''<EOS>'', unk_token = ''x'',
      id_to_token_map_py =
        \<lparr>default_factory = ''x'',
         items = [(0, ''x''), (1, ''<BOS>''), (2, ''<EOS>''), (3, ''x'')]\<rparr>,
      token_to_id_map_py =
        \<lparr>default_factory = 3,
         items = [(''x'', 3), (''<BOS>'', 1), (''<EOS>'', 2)]\<rparr>\<rparr>"

section \<open>Dictionaries built by \<^verbatim>\<open>_make_defaultdict\<close>\<close>

lemma fold_setitem:
  "fold (\<lambda>(k, v) d. setitem d k v) kvs d0 =
     d0\<lparr>items := fold (\<lambda>(k, v). AList.update k v) kvs (items d0)\<rparr>"
  by (induction kvs arbitrary: d0) (auto simp: setitem_def)

lemma default_factory_make_defaultdict [simp]:
  "default_factory (make_defaultdict ks vs dv) = dv"
  by (simp add: make_defaultdict_def fold_setitem)

lemma make_defaultdict_snoc:
  assumes "length ks = length vs"
  shows "make_defaultdict (ks @ [k]) (vs @ [v]) dv = setitem (make_defaultdict ks vs dv) k v"
  using assms by (simp add: make_defaultdict_def)

lemma arange_Suc: "arange (Suc n) = arange n @ [int n]"
  by (simp add: arange_def)

lemma length_arange [simp]: "length (arange n) = n"
  by (simp add: arange_def)

lemma id_map_snoc:
  "make_defaultdict (arange (length (xs @ [x]))) (xs @ [x]) dv =
     setitem (make_defaultdict (arange (length xs)) xs dv) (int (length xs)) x"
  by (simp add: arange_Suc make_defaultdict_snoc)

lemma token_map_snoc:
  "make_defaultdict (xs @ [x]) (arange (length (xs @ [x]))) dv =
     setitem (make_defaultdict xs (arange (length xs)) dv) x (int (length xs))"
  by (simp add: arange_Suc make_defaultdict_snoc)

lemma items_make_defaultdict_Nil [simp]: "items (make_defaultdict [] vs dv) = []"
  "items (make_defaultdict ks [] dv) = []"
  by (simp_all add: make_defaultdict_def)

lemma map_of_setitem:
  "map_of (items (setitem d k v)) = (map_of (items d))(k \<mapsto> v)"
  by (simp add: setitem_def update_conv')

lemma id_map_lookup:
  "map_of (items (make_defaultdict (arange (length xs)) xs dv)) i =
     (if 0 \<le> i \<and> i < int (length xs) then Some (xs ! nat i) else None)"
proof (induction xs rule: rev_induct)
  case Nil
  then show ?case by simp
next
  case (snoc x xs)
  show ?case
    unfolding id_map_snoc map_of_setitem using snoc
    by (auto simp: nth_append)
qed

lemma token_map_keys:
  "fst ` set (items (make_defaultdict xs (arange (length xs)) dv)) = set xs"
  by (induction xs rule: rev_induct)
     (simp_all only: token_map_snoc, auto simp: setitem_def dom_update)

lemma token_map_distinct:
  "distinct (map fst (items (make_defaultdict xs (arange (length xs)) dv)))"
  by (induction xs rule: rev_induct)
     (simp_all only: token_map_snoc, auto simp: setitem_def distinct_update)

lemma len_token_map:
  "len (make_defaultdict xs (arange (length xs)) dv) = card (set xs)"
proof -
  let ?al = "items (make_defaultdict xs (arange (length xs)) dv)"
  have "length ?al = length (map fst ?al)" by simp
  also have "\<dots> = card (set (map fst ?al))"
    using token_map_distinct by (metis distinct_card)
  also have "\<dots> = card (set xs)" by (simp add: token_map_keys)
  finally show ?thesis by (simp add: len_def)
qed

lemma token_map_lookup_None:
  "map_of (items (make_defaultdict xs (arange (length xs)) dv)) t = None \<longleftrightarrow> t \<notin> set xs"
  by (simp add: map_of_eq_None_iff token_map_keys)

lemma token_map_lookup_Some:
  "map_of (items (make_defaultdict xs (arange (length xs)) dv)) t = Some v \<longleftrightarrow>
     (\<exists>i<length xs. v = int i \<and> xs ! i = t \<and> (\<forall>j. i < j \<and> j < length xs \<longrightarrow> xs ! j \<noteq> t))"
proof (induction xs rule: rev_induct)
  case Nil
  then show ?case by simp
next
  case (snoc x xs)
  let ?n = "length xs"
  show ?case
  proof (cases "t = x")
    case True
    have "(\<exists>i<Suc ?n. v = int i \<and> (xs @ [x]) ! i = x \<and>
             (\<forall>j. i < j \<and> j < Suc ?n \<longrightarrow> (xs @ [x]) ! j \<noteq> x)) \<longleftrightarrow> v = int ?n"
    proof
      assume "\<exists>i<Suc ?n. v = int i \<and> (xs @ [x]) ! i = x \<and>
             (\<forall>j. i < j \<and> j < Suc ?n \<longrightarrow> (xs @ [x]) ! j \<noteq> x)"
      then obtain i where i: "i < Suc ?n" "v = int i"
        "\<forall>j. i < j \<and> j < Suc ?n \<longrightarrow> (xs @ [x]) ! j \<noteq> x" by blast
      have "\<not> i < ?n"
      proof
        assume "i < ?n"
        with i(3) have "(xs @ [x]) ! ?n \<noteq> x" by (elim allE[of _ ?n]) simp
        then show False by simp
      qed
      with i(1,2) show "v = int ?n" by simp
    next
      assume "v = int ?n"
      then show "\<exists>i<Suc ?n. v = int i \<and> (xs @ [x]) ! i = x \<and>
             (\<forall>j. i < j \<and> j < Suc ?n \<longrightarrow> (xs @ [x]) ! j \<noteq> x)"
        by (intro exI[of _ ?n]) auto
    qed
    with True show ?thesis
      unfolding token_map_snoc map_of_setitem by auto
  next
    case False
    have "(\<exists>i<Suc ?n. v = int i \<and> (xs @ [x]) ! i = t \<and>
             (\<forall>j. i < j \<and> j < Suc ?n \<longrightarrow> (xs @ [x]) ! j \<noteq> t)) \<longleftrightarrow>
          (\<exists>i<?n. v = int i \<and> xs ! i = t \<and> (\<forall>j. i < j \<and> j < ?n \<longrightarrow> xs ! j \<noteq> t))"
      (is "?L \<longleftrightarrow> ?R")
    proof
      assume ?L
      then obtain i where i: "i < Suc ?n" "v = int i" "(xs @ [x]) ! i = t"
        "\<forall>j. i < j \<and> j < Suc ?n \<longrightarrow> (xs @ [x]) ! j \<noteq> t" by blast
      from i(1,3) False have lt: "i < ?n" by (cases "i = ?n") auto
      with i(3) have "xs ! i = t" by (simp add: nth_append)
      moreover have "\<forall>j. i < j \<and> j < ?n \<longrightarrow> xs ! j \<noteq> t"
      proof (intro allI impI)
        fix j assume j: "i < j \<and> j < ?n"
        with i(4) have "(xs @ [x]) ! j \<noteq> t" by simp
        with j show "xs ! j \<noteq> t" by (simp add: nth_append)
      qed
      ultimately show ?R using lt i(2) by blast
    next
      assume ?R
      then obtain i where i: "i < ?n" "v = int i" "xs ! i = t"
        "\<forall>j. i < j \<and> j < ?n \<longrightarrow> xs ! j \<noteq> t" by blast
      have "\<forall>j. i < j \<and> j < Suc ?n \<longrightarrow> (xs @ [x]) ! j \<noteq> t"
      proof (intro allI impI)
        fix j assume j: "i < j \<and> j < Suc ?n"
        show "(xs @ [x]) ! j \<noteq> t"
        proof (cases "j = ?n")
          case True
          with False show ?thesis by simp
        next
          case False
          with j i(4) show ?thesis by (simp add: nth_append)
        qed
      qed
      with i(1,2,3) show ?L by (intro exI[of _ i]) (simp add: nth_append)
    qed
    with False snoc show ?thesis
      unfolding token_map_snoc map_of_setitem by auto
  qed
qed

section \<open>Tables built by the constructor\<close>

lemma load_Inr:
  assumes "fs fn = Some lines"
    and "load fs pad bos eos unk fn = Inr (i2t, t2i)"
  shows "bos \<notin> set lines \<and> eos \<notin> set lines \<and> unk \<notin> set lines \<and> pad \<notin> set lines"
    and "i2t = make_defaultdict (arange (length (pad # bos # eos # unk # lines)))
                 (pad # bos # eos # unk # lines) unk"
    and "t2i = make_defaultdict (pad # bos # eos # unk # lines)
                 (arange (length (pad # bos # eos # unk # lines))) 3"
  using assms by (auto simp: load_def Let_def split: if_splits)

lemma Vocab_init_Inr:
  assumes "fs fn = Some lines"
    and "Vocab_init fs fn pad bos eos unk = Inr v"
  shows "bos \<notin> set lines \<and> eos \<notin> set lines \<and> unk \<notin> set lines \<and> pad \<notin> set lines"
    and "pad_token v = pad \<and> bos_token v = bos \<and> eos_token v = eos \<and> unk_token v = unk"
    and "id_to_token_map_py v =
           make_defaultdict (arange (length (pad # bos # eos # unk # lines)))
             (pad # bos # eos # unk # lines) unk"
    and "token_to_id_map_py v =
           make_defaultdict (pad # bos # eos # unk # lines)
             (arange (length (pad # bos # eos # unk # lines))) 3"
proof -
  from assms(2) obtain i2t t2i where l: "load fs pad bos eos unk fn = Inr (i2t, t2i)"
    and v: "v = \<lparr>filename = fn, pad_token = pad, bos_token = bos, eos_token = eos,
               unk_token = unk, id_to_token_map_py = i2t, token_to_id_map_py = t2i\<rparr>"
    by (auto simp: Vocab_init_def split: sum.splits)
  from load_Inr[OF assms(1) l] v
  show "bos \<notin> set lines \<and> eos \<notin> set lines \<and> unk \<notin> set lines \<and> pad \<notin> set lines"
    and "pad_token v = pad \<and> bos_token v = bos \<and> eos_token v = eos \<and> unk_token v = unk"
    and "id_to_token_map_py v =
           make_defaultdict (arange (length (pad # bos # eos # unk # lines)))
             (pad # bos # eos # unk # lines) unk"
    and "token_to_id_map_py v =
           make_defaultdict (pad # bos # eos # unk # lines)
             (arange (length (pad # bos # eos # unk # lines))) 3"
    by simp_all
qed

lemma Vocab_init_succeeds:
  assumes "fs fn = Some lines"
    and "bos \<notin> set lines" "eos \<notin> set lines" "unk \<notin> set lines" "pad \<notin> set lines"
  shows "\<exists>v. Vocab_init fs fn pad bos eos unk = Inr v"
  using assms by (simp add: Vocab_init_def load_def Let_def)

lemma Vocab_init_source:
  assumes "Vocab_init fs fn pad bos eos unk = Inr v"
  shows "\<exists>lines. fs fn = Some lines"
  using assms by (cases "fs fn") (simp_all add: Vocab_init_def load_def)

lemma token_id_present:
  assumes "map_of (items (token_to_id_map_py v)) t = Some i"
  shows "token_id v t = (i, v)"
  using assms by (simp add: token_id_def getitem_def)

lemma built_token_lookup:
  assumes "fs fn = Some lines"
    and "Vocab_init fs fn pad bos eos unk = Inr v"
  shows "map_of (items (token_to_id_map_py v)) t = Some i \<longleftrightarrow>
     (\<exists>k<length (pad # bos # eos # unk # lines). i = int k \<and> (pad # bos # eos # unk # lines) ! k = t \<and>
        (\<forall>j. k < j \<and> j < length (pad # bos # eos # unk # lines) \<longrightarrow> (pad # bos # eos # unk # lines) ! j \<noteq> t))"
  unfolding Vocab_init_Inr(4)[OF assms] by (rule token_map_lookup_Some)

lemma built_token_lookup_None:
  assumes "fs fn = Some lines"
    and "Vocab_init fs fn pad bos eos unk = Inr v"
  shows "map_of (items (token_to_id_map_py v)) t = None \<longleftrightarrow>
           t \<notin> set (pad # bos # eos # unk # lines)"
  unfolding Vocab_init_Inr(4)[OF assms] by (rule token_map_lookup_None)

lemma built_id_lookup:
  assumes "fs fn = Some lines"
    and "Vocab_init fs fn pad bos eos unk = Inr v"
  shows "map_of (items (id_to_token_map_py v)) i =
     (if 0 \<le> i \<and> i < int (length (pad # bos # eos # unk # lines))
      then Some ((pad # bos # eos # unk # lines) ! nat i) else None)"
  unfolding Vocab_init_Inr(3)[OF assms] by (rule id_map_lookup)

lemma built_size:
  assumes "fs fn = Some lines"
    and "Vocab_init fs fn pad bos eos unk = Inr v"
  shows "Vocab_size v = card (set (pad # bos # eos # unk # lines))"
  unfolding Vocab_size_def Vocab_init_Inr(4)[OF assms] by (rule len_token_map)

lemma nth_after_specials:
  assumes "4 \<le> j" "j < length (a # b # c # d # xs)"
  shows "(a # b # c # d # xs) ! j \<in> set xs"
proof -
  define m where "m = j - 4"
  with assms have "j = Suc (Suc (Suc (Suc m)))" "m < length xs" by simp_all
  then show ?thesis by simp
qed

lemma built_last_occurrence:
  assumes "fs fn = Some lines"
    and "Vocab_init fs fn pad bos eos unk = Inr v"
    and "k < length (pad # bos # eos # unk # lines)"
    and "\<forall>j. k < j \<and> j < length (pad # bos # eos # unk # lines) \<longrightarrow>
           (pad # bos # eos # unk # lines) ! j \<noteq> (pad # bos # eos # unk # lines) ! k"
  shows "token_id v ((pad # bos # eos # unk # lines) ! k) = (int k, v)"
proof (rule token_id_present)
  show "map_of (items (token_to_id_map_py v)) ((pad # bos # eos # unk # lines) ! k) = Some (int k)"
    unfolding built_token_lookup[OF assms(1,2)] using assms(3,4) by blast
qed

lemma special_not_later:
  assumes "t \<notin> set lines" "t \<notin> set (drop (Suc k) [pad, bos, eos, unk])"
  shows "\<forall>j. k < j \<and> j < length (pad # bos # eos # unk # lines) \<longrightarrow>
           (pad # bos # eos # unk # lines) ! j \<noteq> t"
proof (intro allI impI)
  fix j assume j: "k < j \<and> j < length (pad # bos # eos # unk # lines)"
  show "(pad # bos # eos # unk # lines) ! j \<noteq> t"
  proof (cases "4 \<le> j")
    case True
    with j nth_after_specials[of j pad bos eos unk lines] assms(1) show ?thesis by auto
  next
    case False
    then have "j = 0 \<or> j = 1 \<or> j = 2 \<or> j = 3" by arith
    with j assms(2) show ?thesis
      by (cases k; cases "k - 1"; cases "k - 2"; cases "k - 3") auto
  qed
qed

lemma built_unk_token_id:
  assumes "fs fn = Some lines"
    and "Vocab_init fs fn pad bos eos unk = Inr v"
  shows "unk_token_id v = (3, v)"
proof -
  note b = Vocab_init_Inr[OF assms]
  have "token_id v ((pad # bos # eos # unk # lines) ! 3) = (int 3, v)"
    using b(1) by (intro built_last_occurrence[OF assms] special_not_later) simp_all
  then show ?thesis using b(2) by (simp add: unk_token_id_def)
qed

lemma built_eos_token_id:
  assumes "fs fn = Some lines"
    and "Vocab_init fs fn pad bos eos unk = Inr v"
    and "eos \<noteq> unk"
  shows "eos_token_id v = (2, v)"
proof -
  note b = Vocab_init_Inr[OF assms(1,2)]
  have "token_id v ((pad # bos # eos # unk # lines) ! 2) = (int 2, v)"
    using b(1) assms(3)
    by (intro built_last_occurrence[OF assms(1,2)] special_not_later) simp_all
  then show ?thesis using b(2) by (simp add: eos_token_id_def)
qed

lemma built_bos_token_id:
  assumes "fs fn = Some lines"
    and "Vocab_init fs fn pad bos eos unk = Inr v"
    and "bos \<noteq> eos" "bos \<noteq> unk"
  shows "bos_token_id v = (1, v)"
proof -
  note b = Vocab_init_Inr[OF assms(1,2)]
  have "token_id v ((pad # bos # eos # unk # lines) ! 1) = (int 1, v)"
    using b(1) assms(3,4)
    by (intro built_last_occurrence[OF assms(1,2)] special_not_later) simp_all
  then show ?thesis using b(2) by (simp add: bos_token_id_def)
qed

lemma built_pad_token_id:
  assumes "fs fn = Some lines"
    and "Vocab_init fs fn pad bos eos unk = Inr v"
    and "pad \<noteq> bos" "pad \<noteq> eos" "pad \<noteq> unk"
  shows "pad_token_id v = (0, v)"
proof -
  note b = Vocab_init_Inr[OF assms(1,2)]
  have "token_id v ((pad # bos # eos # unk # lines) ! 0) = (int 0, v)"
    using b(1) assms(3,4,5)
    by (intro built_last_occurrence[OF assms(1,2)] special_not_later) simp_all
  then show ?thesis using b(2) by (simp add: pad_token_id_def)
qed

lemma dict_lookup_map_nested:
  "dict_lookup d x dflt =
     map_nested (\<lambda>k. case map_of (items d) k of Some v \<Rightarrow> v | None \<Rightarrow> dflt) x"
  by (induction x) simp_all

lemma shape_map_nested: "shape (map_nested f x) = shape x"
  by (simp add: shape_def nested.map_comp comp_def)

lemma built_map_tokens_to_ids_py:
  assumes "fs fn = Some lines"
    and "Vocab_init fs fn pad bos eos unk = Inr v"
  shows "map_tokens_to_ids_py v toks = (dict_lookup (token_to_id_map_py v) toks 3, v)"
  by (simp add: map_tokens_to_ids_py_def built_unk_token_id[OF assms])

lemma example_vocab_txt:
  "Vocab_init example_fs ''vocab.txt'' PAD BOS EOS UNK = Inr cat_dog_vocab"
  by code_simp

lemma example_dup_txt:
  "Vocab_init example_fs ''dup.txt'' PAD BOS EOS UNK = Inr dup_vocab"
  by code_simp

lemma built_scalar_token:
  assumes "fs fn = Some lines"
    and "Vocab_init fs fn pad bos eos unk = Inr v"
  shows "map_tokens_to_ids_py v (Scalar t) =
           (Scalar (case map_of (items (token_to_id_map_py v)) t of Some i \<Rightarrow> i | None \<Rightarrow> 3), v)"
  by (simp add: built_map_tokens_to_ids_py[OF assms])

lemma built_scalar_id:
  assumes "fs fn = Some lines"
    and "Vocab_init fs fn pad bos eos unk = Inr v"
  shows "map_ids_to_tokens_py v (Scalar i) =
           Scalar (if 0 \<le> i \<and> i < 4 + int (length lines)
                   then (pad # bos # eos # unk # lines) ! nat i else unk)"
  using Vocab_init_Inr(2)[OF assms]
  by (simp add: map_ids_to_tokens_py_def built_id_lookup[OF assms])

lemma built_size_distinct:
  assumes "fs fn = Some lines"
    and "Vocab_init fs fn pad bos eos unk = Inr v"
    and "distinct (pad # bos # eos # unk # lines)"
  shows "Vocab_size v = 4 + length lines"
  unfolding built_size[OF assms(1,2)] using distinct_card[OF assms(3)] by simp

lemma update_fresh: "k \<notin> fst ` set al \<Longrightarrow> AList.update k v al = al @ [(k, v)]"
  by (induction al) auto

lemma id_map_items:
  "items (make_defaultdict (arange (length xs)) xs dv) = zip (arange (length xs)) xs"
proof (induction xs rule: rev_induct)
  case Nil
  then show ?case by simp
next
  case (snoc x xs)
  have "int (length xs) \<notin> fst ` set (zip (arange (length xs)) xs)"
    by (auto simp: arange_def dest!: set_zip_leftD)
  with snoc show ?case
    unfolding id_map_snoc by (simp add: setitem_def update_fresh arange_Suc)
qed

lemma nth_past_specials: "(a # b # c # d # xs) ! (4 + m) = xs ! m"
  by (simp add: numeral_eq_Suc)

lemma built_line_id:
  assumes "fs fn = Some lines"
    and "Vocab_init fs fn pad bos eos unk = Inr v"
    and "j < length lines"
    and "\<forall>k. j < k \<and> k < length lines \<longrightarrow> lines ! k \<noteq> lines ! j"
  shows "map_of (items (token_to_id_map_py v)) (lines ! j) = Some (4 + int j)"
proof -
  let ?seq = "pad # bos # eos # unk # lines"
  have later: "\<forall>i. 4 + j < i \<and> i < length ?seq \<longrightarrow> ?seq ! i \<noteq> lines ! j"
  proof (intro allI impI)
    fix i assume i: "4 + j < i \<and> i < length ?seq"
    define m where "m = i - 4"
    with i have m: "i = 4 + m" "j < m" "m < length lines" by auto
    with assms(4) have "lines ! m \<noteq> lines ! j" by blast
    then show "?seq ! i \<noteq> lines ! j" unfolding m(1) nth_past_specials .
  qed
  have "\<exists>k<length ?seq. 4 + int j = int k \<and> ?seq ! k = lines ! j \<and>
          (\<forall>i. k < i \<and> i < length ?seq \<longrightarrow> ?seq ! i \<noteq> lines ! j)"
    using assms(3) later by (intro exI[of _ "4 + j"]) (simp add: nth_past_specials)
  then show ?thesis unfolding built_token_lookup[OF assms(1,2)] .
qed

lemma built_token_present:
  assumes "fs fn = Some lines"
    and "Vocab_init fs fn pad bos eos unk = Inr v"
    and "t \<in> set (pad # bos # eos # unk # lines)"
  obtains k where "k < 4 + length lines" "(pad # bos # eos # unk # lines) ! k = t"
    "\<forall>j. k < j \<and> j < 4 + length lines \<longrightarrow> (pad # bos # eos # unk # lines) ! j \<noteq> t"
    "map_of (items (token_to_id_map_py v)) t = Some (int k)"
proof -
  from assms(3) built_token_lookup_None[OF assms(1,2), of t]
  obtain i where i: "map_of (items (token_to_id_map_py v)) t = Some i" by auto
  then obtain k where "k < length (pad # bos # eos # unk # lines)" "i = int k"
    "(pad # bos # eos # unk # lines) ! k = t"
    "\<forall>j. k < j \<and> j < length (pad # bos # eos # unk # lines) \<longrightarrow>
         (pad # bos # eos # unk # lines) ! j \<noteq> t"
    unfolding built_token_lookup[OF assms(1,2)] by blast
  with i that show thesis by simp
qed

lemma built_roundtrip_id:
  assumes "fs fn = Some lines"
    and "Vocab_init fs fn pad bos eos unk = Inr v"
    and "i < 4 + length lines"
  shows "fst (map_tokens_to_ids_py v (map_ids_to_tokens_py v (Scalar (int i)))) = Scalar (int i)
         \<longleftrightarrow> (\<forall>j. i < j \<and> j < 4 + length lines \<longrightarrow>
                (pad # bos # eos # unk # lines) ! j \<noteq> (pad # bos # eos # unk # lines) ! i)"
proof -
  let ?seq = "pad # bos # eos # unk # lines"
  from assms(3) have "?seq ! i \<in> set ?seq" by (intro nth_mem) simp
  from built_token_present[OF assms(1,2) this]
  obtain k where k: "k < 4 + length lines" "?seq ! k = ?seq ! i"
    "\<forall>j. k < j \<and> j < 4 + length lines \<longrightarrow> ?seq ! j \<noteq> ?seq ! i"
    "map_of (items (token_to_id_map_py v)) (?seq ! i) = Some (int k)" by blast
  have "fst (map_tokens_to_ids_py v (map_ids_to_tokens_py v (Scalar (int i)))) = Scalar (int k)"
    using assms(3) k(4)
    by (simp add: built_scalar_id[OF assms(1,2)] built_scalar_token[OF assms(1,2)])
  moreover have "k = i \<longleftrightarrow> (\<forall>j. i < j \<and> j < 4 + length lines \<longrightarrow> ?seq ! j \<noteq> ?seq ! i)"
  proof
    assume "k = i"
    with k(3) show "\<forall>j. i < j \<and> j < 4 + length lines \<longrightarrow> ?seq ! j \<noteq> ?seq ! i" by simp
  next
    assume later: "\<forall>j. i < j \<and> j < 4 + length lines \<longrightarrow> ?seq ! j \<noteq> ?seq ! i"
    show "k = i"
    proof (rule ccontr)
      assume "k \<noteq> i"
      then consider "k < i" | "i < k" by arith
      then show False
      proof cases
        case 1
        with k(3) assms(3) show False by blast
      next
        case 2
        with later k(1,2) show False by blast
      qed
    qed
  qed
  ultimately show ?thesis by simp
qed

lemma built_size_split:
  assumes "fs fn = Some lines"
    and "Vocab_init fs fn pad bos eos unk = Inr v"
  shows "Vocab_size v = card (set [pad, bos, eos, unk]) + card (set lines)"
proof -
  from Vocab_init_Inr(1)[OF assms] have "set [pad, bos, eos, unk] \<inter> set lines = {}" by auto
  then have "card (set [pad, bos, eos, unk] \<union> set lines) =
      card (set [pad, bos, eos, unk]) + card (set lines)"
    by (intro card_Un_disjoint) simp_all
  moreover have "set (pad # bos # eos # unk # lines) = set [pad, bos, eos, unk] \<union> set lines"
    by auto
  ultimately show ?thesis unfolding built_size[OF assms] by simp
qed

section \<open>The claims\<close>

subsection \<open>C1: the ids of the special tokens\<close>

text \<open>
  C1, as stated, fails: the constructor takes the four special tokens as arguments and
  does not compare them with one another. Read from the empty file with the same string
  \<^verbatim>\<open><s>\<close> as padding and as begin-of-sequence token, construction succeeds and
  \<^verbatim>\<open>pad_token_id\<close> is 1, not 0.
\<close>

theorem pad_token_id_counterexample:
  "Vocab_init example_fs ''empty.txt'' ''<s>'' ''<s>'' EOS UNK = Inr shared_pad_vocab \<and>
   pad_token_id shared_pad_vocab = (1, shared_pad_vocab) \<and>
   fst (pad_token_id shared_pad_vocab) \<noteq> 0"
  by code_simp

text \<open>
  C1, amended: for every construction that succeeds, whatever the source listing,
  \<^verbatim>\<open>unk_token_id\<close> is 3; \<^verbatim>\<open>eos_token_id\<close> is 2 when the end-of-sequence token
  differs from the unknown token; \<^verbatim>\<open>bos_token_id\<close> is 1 when the begin-of-sequence
  token differs from both; \<^verbatim>\<open>pad_token_id\<close> is 0 when the padding token differs from
  the other three. So the ids are 0, 1, 2, 3 whenever the four special tokens are pairwise
  distinct, as the defaults are. Each accessor returns the id and leaves the table as it
  was.
\<close>

theorem special_token_ids:
  assumes "Vocab_init fs fn pad bos eos unk = Inr v"
  shows "unk_token_id v = (3, v) \<and>
         (eos \<noteq> unk \<longrightarrow> eos_token_id v = (2, v)) \<and>
         (bos \<noteq> eos \<and> bos \<noteq> unk \<longrightarrow> bos_token_id v = (1, v)) \<and>
         (pad \<noteq> bos \<and> pad \<noteq> eos \<and> pad \<noteq> unk \<longrightarrow> pad_token_id v = (0, v))"
proof -
  from Vocab_init_source[OF assms] obtain lines where src: "fs fn = Some lines" ..
  from built_unk_token_id[OF src assms] built_eos_token_id[OF src assms]
    built_bos_token_id[OF src assms] built_pad_token_id[OF src assms]
  show ?thesis by blast
qed

text \<open>
  C1, witness: the table of \<^verbatim>\<open>vocab.txt\<close> with the default special tokens.
\<close>

theorem special_token_ids_witness:
  "Vocab_init example_fs ''vocab.txt'' PAD BOS EOS UNK = Inr cat_dog_vocab \<and>
   unk_token_id cat_dog_vocab = (3, cat_dog_vocab) \<and>
   eos_token_id cat_dog_vocab = (2, cat_dog_vocab) \<and>
   bos_token_id cat_dog_vocab = (1, cat_dog_vocab) \<and>
   pad_token_id cat_dog_vocab = (0, cat_dog_vocab)"
  using special_token_ids[OF example_vocab_txt] example_vocab_txt
  by (simp add: PAD_def BOS_def EOS_def UNK_def)

subsection \<open>C2: ids follow the order of the sequence\<close>

text \<open>
  C2: for a construction that succeeds, the id-to-token dictionary is the sequence
  pad, bos, eos, unk followed by the source lines, paired with the ids 0, 1, 2, ... in
  that order, so that the line at position \<open>j\<close> of the file has id \<open>4 + j\<close>. The
  token-to-id dictionary is its inverse with the last write winning: a string is mapped
  to the position of its last occurrence in the sequence (for a source line,
  \<open>4\<close> plus the position of its last occurrence in the file), and a string that is not in
  the sequence is not a key.
\<close>

theorem load_assigns_ids_in_sequence_order:
  assumes "fs fn = Some lines"
    and "Vocab_init fs fn pad bos eos unk = Inr v"
  shows "items (id_to_token_map_py v) =
           zip (arange (4 + length lines)) (pad # bos # eos # unk # lines) \<and>
         (\<forall>j<length lines. map_of (items (id_to_token_map_py v)) (4 + int j) = Some (lines ! j)) \<and>
         (\<forall>k<4 + length lines.
            (\<forall>j. k < j \<and> j < 4 + length lines \<longrightarrow>
                 (pad # bos # eos # unk # lines) ! j \<noteq> (pad # bos # eos # unk # lines) ! k) \<longrightarrow>
            map_of (items (token_to_id_map_py v)) ((pad # bos # eos # unk # lines) ! k) =
              Some (int k)) \<and>
         (\<forall>j<length lines.
            (\<forall>k. j < k \<and> k < length lines \<longrightarrow> lines ! k \<noteq> lines ! j) \<longrightarrow>
            map_of (items (token_to_id_map_py v)) (lines ! j) = Some (4 + int j)) \<and>
         (\<forall>t. t \<notin> set (pad # bos # eos # unk # lines) \<longrightarrow>
            map_of (items (token_to_id_map_py v)) t = None)"
proof (intro conjI)
  let ?seq = "pad # bos # eos # unk # lines"
  note b = Vocab_init_Inr[OF assms]
  have len: "length ?seq = 4 + length lines" by simp
  have "items (id_to_token_map_py v) = zip (arange (length ?seq)) ?seq"
    unfolding b(3) by (rule id_map_items)
  then show "items (id_to_token_map_py v) = zip (arange (4 + length lines)) ?seq"
    by (simp only: len)
  show "\<forall>j<length lines. map_of (items (id_to_token_map_py v)) (4 + int j) = Some (lines ! j)"
  proof (intro allI impI)
    fix j assume "j < length lines"
    then show "map_of (items (id_to_token_map_py v)) (4 + int j) = Some (lines ! j)"
      using nth_past_specials[of pad bos eos unk lines j]
      by (simp add: built_id_lookup[OF assms] nat_add_distrib)
  qed
  show "\<forall>k<4 + length lines.
          (\<forall>j. k < j \<and> j < 4 + length lines \<longrightarrow> ?seq ! j \<noteq> ?seq ! k) \<longrightarrow>
          map_of (items (token_to_id_map_py v)) (?seq ! k) = Some (int k)"
    unfolding built_token_lookup[OF assms] len by blast
  show "\<forall>j<length lines.
          (\<forall>k. j < k \<and> k < length lines \<longrightarrow> lines ! k \<noteq> lines ! j) \<longrightarrow>
          map_of (items (token_to_id_map_py v)) (lines ! j) = Some (4 + int j)"
    using built_line_id[OF assms] by blast
  show "\<forall>t. t \<notin> set ?seq \<longrightarrow> map_of (items (token_to_id_map_py v)) t = None"
    using built_token_lookup_None[OF assms] by blast
qed

text \<open>
  C2, witness: the file that lists \<^verbatim>\<open>a\<close> twice. Both positions 4 and 5 hold
  \<^verbatim>\<open>a\<close>, and \<^verbatim>\<open>a\<close> is mapped to 5.
\<close>

theorem load_assigns_ids_in_sequence_order_witness:
  "example_fs ''dup.txt'' = Some [''a'', ''a''] \<and>
   Vocab_init example_fs ''dup.txt'' PAD BOS EOS UNK = Inr dup_vocab \<and>
   items (id_to_token_map_py dup_vocab) =
     [(0, ''<PAD>''), (1, ''<BOS>''), (2, ''<EOS>''), (3, ''<UNK>''), (4, ''a''), (5, ''a'')] \<and>
   map_of (items (token_to_id_map_py dup_vocab)) ''a'' = Some 5 \<and>
   map_of (items (token_to_id_map_py dup_vocab)) ''b'' = None"
proof -
  have src: "example_fs ''dup.txt'' = Some [''a'', ''a'']" by (simp add: example_fs_def)
  note t = load_assigns_ids_in_sequence_order[OF src example_dup_txt]
  from t have "items (id_to_token_map_py dup_vocab) =
      zip (arange (4 + length [''a'', ''a''])) (PAD # BOS # EOS # UNK # [''a'', ''a''])"
    by blast
  then have i: "items (id_to_token_map_py dup_vocab) =
     [(0, ''<PAD>''), (1, ''<BOS>''), (2, ''<EOS>''), (3, ''<UNK>''), (4, ''a''), (5, ''a'')]"
    by (simp add: arange_def upt_rec PAD_def BOS_def EOS_def UNK_def)
  from t have "\<forall>j<length [''a'', ''a''].
       (\<forall>k. j < k \<and> k < length [''a'', ''a''] \<longrightarrow> [''a'', ''a''] ! k \<noteq> [''a'', ''a''] ! j) \<longrightarrow>
            map_of (items (token_to_id_map_py dup_vocab)) ([''a'', ''a''] ! j) = Some (4 + int j)"
    by blast
  then have "(\<forall>k. 1 < k \<and> k < length [''a'', ''a''] \<longrightarrow> [''a'', ''a''] ! k \<noteq> [''a'', ''a''] ! 1) \<longrightarrow>
            map_of (items (token_to_id_map_py dup_vocab)) ([''a'', ''a''] ! 1) = Some (4 + int 1)"
    by (elim allE[of _ 1]) simp
  then have a: "map_of (items (token_to_id_map_py dup_vocab)) ''a'' = Some 5" by simp
  from t have "\<forall>t. t \<notin> set (PAD # BOS # EOS # UNK # [''a'', ''a'']) \<longrightarrow>
            map_of (items (token_to_id_map_py dup_vocab)) t = None" by blast
  then have n: "map_of (items (token_to_id_map_py dup_vocab)) ''b'' = None"
    by (simp add: PAD_def BOS_def EOS_def UNK_def)
  from src example_dup_txt i a n show ?thesis by simp
qed

subsection \<open>C3: a special token among the source lines\<close>

text \<open>
  C3: if any of the four special tokens is a line of the source listing, construction
  returns no table but the error (a \<^verbatim>\<open>ValueError\<close> in the source), whose message
  names the role and the string of a special token that is among the lines. When the
  begin-of-sequence token is among them, as with a file that lists the default
  \<^verbatim>\<open><BOS>\<close>, it is the one named.
\<close>

theorem special_token_in_source_rejected:
  assumes "fs fn = Some lines"
    and "set [pad, bos, eos, unk] \<inter> set lines \<noteq> {}"
  shows "(\<exists>role tok.
            (role, tok) \<in> set [(''begin-of-seq'', bos), (''end-of-seq'', eos),
                               (''UNK'', unk), (''padding'', pad)] \<and>
            tok \<in> set lines \<and>
            Vocab_init fs fn pad bos eos unk =
              Inl (ValueError (''Special '' @ role @
                     '' token already exists in the vocabulary: '' @ quoted tok))) \<and>
         (bos \<in> set lines \<longrightarrow>
            Vocab_init fs fn pad bos eos unk =
              Inl (ValueError (''Special begin-of-seq token already exists in the vocabulary: ''
                     @ quoted bos)))"
proof -
  have first: "Vocab_init fs fn pad bos eos unk =
      Inl (ValueError (''Special begin-of-seq token already exists in the vocabulary: ''
             @ quoted bos))" if "bos \<in> set lines"
    using assms(1) that by (simp add: Vocab_init_def load_def)
  consider (bos) "bos \<in> set lines"
    | (eos) "bos \<notin> set lines" "eos \<in> set lines"
    | (unk) "bos \<notin> set lines" "eos \<notin> set lines" "unk \<in> set lines"
    | (pad) "bos \<notin> set lines" "eos \<notin> set lines" "unk \<notin> set lines" "pad \<in> set lines"
    using assms(2) by auto
  then have "\<exists>role tok.
            (role, tok) \<in> set [(''begin-of-seq'', bos), (''end-of-seq'', eos),
                               (''UNK'', unk), (''padding'', pad)] \<and>
            tok \<in> set lines \<and>
            Vocab_init fs fn pad bos eos unk =
              Inl (ValueError (''Special '' @ role @
                     '' token already exists in the vocabulary: '' @ quoted tok))"
  proof cases
    case bos
    with assms(1) show ?thesis
      by (intro exI[of _ "''begin-of-seq''"] exI[of _ bos]) (simp add: Vocab_init_def load_def)
  next
    case eos
    with assms(1) show ?thesis
      by (intro exI[of _ "''end-of-seq''"] exI[of _ eos]) (simp add: Vocab_init_def load_def)
  next
    case unk
    with assms(1) show ?thesis
      by (intro exI[of _ "''UNK''"] exI[of _ unk]) (simp add: Vocab_init_def load_def)
  next
    case pad
    with assms(1) show ?thesis
      by (intro exI[of _ "''padding''"] exI[of _ pad]) (simp add: Vocab_init_def load_def)
  qed
  with first show ?thesis by blast
qed

text \<open>
  C3, witness: the file that lists \<^verbatim>\<open><BOS>\<close>, read with the default special tokens.
\<close>

theorem special_token_in_source_rejected_witness:
  "example_fs ''bos.txt'' = Some [''a'', ''<BOS>''] \<and>
   set [PAD, BOS, EOS, UNK] \<inter> set [''a'', ''<BOS>''] \<noteq> {} \<and>
   Vocab_init example_fs ''bos.txt'' PAD BOS EOS UNK =
     Inl (ValueError (''Special begin-of-seq token already exists in the vocabulary: ''
            @ quoted ''<BOS>''))"
proof -
  have src: "example_fs ''bos.txt'' = Some [''a'', ''<BOS>'']" by (simp add: example_fs_def)
  have hit: "set [PAD, BOS, EOS, UNK] \<inter> set [''a'', ''<BOS>''] \<noteq> {}" by (simp add: BOS_def)
  from special_token_in_source_rejected[where fs = example_fs and fn = "''bos.txt''"
      and lines = "[''a'', ''<BOS>'']" and pad = PAD and bos = BOS and eos = EOS and unk = UNK,
      OF src hit] src hit
  show ?thesis by (simp add: BOS_def)
qed

subsection \<open>C4: tokens that are not in the table\<close>

text \<open>
  C4: for every built table and every string that is neither a source line nor a
  special token, the lookup of that string returns the id of the unknown token, which
  is 3, and leaves the table as it was. The lookup has no error result.
\<close>

theorem unknown_token_maps_to_unk_id:
  assumes "fs fn = Some lines"
    and "Vocab_init fs fn pad bos eos unk = Inr v"
    and "s \<notin> set lines"
    and "s \<notin> set [pad, bos, eos, unk]"
  shows "map_tokens_to_ids_py v (Scalar s) = (Scalar (fst (unk_token_id v)), v) \<and>
         fst (unk_token_id v) = 3"
proof -
  from assms(3,4) have "s \<notin> set (pad # bos # eos # unk # lines)" by simp
  then have "map_of (items (token_to_id_map_py v)) s = None"
    using built_token_lookup_None[OF assms(1,2)] by simp
  then show ?thesis
    by (simp add: built_scalar_token[OF assms(1,2)] built_unk_token_id[OF assms(1,2)])
qed

text \<open>
  C4, witness: \<^verbatim>\<open>fish\<close> in the table of \<^verbatim>\<open>vocab.txt\<close>.
\<close>

theorem unknown_token_maps_to_unk_id_witness:
  "example_fs ''vocab.txt'' = Some [''cat'', ''dog''] \<and>
   Vocab_init example_fs ''vocab.txt'' PAD BOS EOS UNK = Inr cat_dog_vocab \<and>
   ''fish'' \<notin> set [''cat'', ''dog''] \<and> ''fish'' \<notin> set [PAD, BOS, EOS, UNK] \<and>
   map_tokens_to_ids_py cat_dog_vocab (Scalar ''fish'') = (Scalar 3, cat_dog_vocab)"
proof -
  have src: "example_fs ''vocab.txt'' = Some [''cat'', ''dog'']" by (simp add: example_fs_def)
  have new: "''fish'' \<notin> set [''cat'', ''dog'']" "''fish'' \<notin> set [PAD, BOS, EOS, UNK]"
    by (simp_all add: PAD_def BOS_def EOS_def UNK_def)
  from unknown_token_maps_to_unk_id[OF src example_vocab_txt new] src example_vocab_txt new
  show ?thesis by simp
qed

subsection \<open>C5: ids that are not in the table\<close>

text \<open>
  C5, as stated, fails: \<^verbatim>\<open>size\<close> is the length of the token-to-id dictionary, which
  has one key for a string listed twice, while the id-to-token dictionary has a key for
  every position. For the file that lists \<^verbatim>\<open>a\<close> twice the size is 5, and the lookup
  of the id 5 returns \<^verbatim>\<open>a\<close>, not the unknown token.
\<close>

theorem id_at_size_counterexample:
  "Vocab_init example_fs ''dup.txt'' PAD BOS EOS UNK = Inr dup_vocab \<and>
   Vocab_size dup_vocab = 5 \<and>
   map_ids_to_tokens_py dup_vocab (Scalar 5) = Scalar ''a'' \<and>
   unk_token dup_vocab = ''<UNK>''"
  by code_simp

text \<open>
  C5, amended: for every built table and every integer \<open>i\<close> that is negative or at
  least 4 plus the number of source lines, the lookup of \<open>i\<close> returns the unknown
  token string; the lookup has no error result. That bound is the size of the table
  whenever no string occurs twice in the sequence of special tokens and source lines.
\<close>

theorem id_out_of_range_maps_to_unk_token:
  assumes "fs fn = Some lines"
    and "Vocab_init fs fn pad bos eos unk = Inr v"
  shows "(i < 0 \<or> 4 + int (length lines) \<le> i \<longrightarrow>
            map_ids_to_tokens_py v (Scalar i) = Scalar (unk_token v)) \<and>
         (distinct (pad # bos # eos # unk # lines) \<longrightarrow> Vocab_size v = 4 + length lines)"
  using Vocab_init_Inr(2)[OF assms] built_size_distinct[OF assms]
  by (auto simp: built_scalar_id[OF assms])

text \<open>
  C5, witness: the ids 6 and -1 in the table of \<^verbatim>\<open>vocab.txt\<close>, whose size is 6.
\<close>

theorem id_out_of_range_maps_to_unk_token_witness:
  "example_fs ''vocab.txt'' = Some [''cat'', ''dog''] \<and>
   Vocab_init example_fs ''vocab.txt'' PAD BOS EOS UNK = Inr cat_dog_vocab \<and>
   map_ids_to_tokens_py cat_dog_vocab (Scalar 6) = Scalar ''<UNK>'' \<and>
   map_ids_to_tokens_py cat_dog_vocab (Scalar (- 1)) = Scalar ''<UNK>'' \<and>
   Vocab_size cat_dog_vocab = 6"
proof -
  have src: "example_fs ''vocab.txt'' = Some [''cat'', ''dog'']" by (simp add: example_fs_def)
  have unk: "unk_token cat_dog_vocab = ''<UNK>''" by (simp add: cat_dog_vocab_def)
  from id_out_of_range_maps_to_unk_token[OF src example_vocab_txt, of 6]
    id_out_of_range_maps_to_unk_token[OF src example_vocab_txt, of "- 1"]
    src example_vocab_txt unk
  show ?thesis by (simp add: PAD_def BOS_def EOS_def UNK_def)
qed

subsection \<open>C6: round trips\<close>

text \<open>
  C6, as stated, fails in its second half: in the table of the file that lists
  \<^verbatim>\<open>a\<close> twice, whose size is 5, the id 4 is mapped to \<^verbatim>\<open>a\<close> and \<^verbatim>\<open>a\<close> is
  mapped to 5.
\<close>

theorem id_roundtrip_counterexample:
  "Vocab_init example_fs ''dup.txt'' PAD BOS EOS UNK = Inr dup_vocab \<and>
   Vocab_size dup_vocab = 5 \<and>
   map_ids_to_tokens_py dup_vocab (Scalar 4) = Scalar ''a'' \<and>
   fst (map_tokens_to_ids_py dup_vocab (map_ids_to_tokens_py dup_vocab (Scalar 4))) = Scalar 5"
  by code_simp

text \<open>
  C6, amended: for every token \<open>t\<close> of a built table, mapping \<open>t\<close> to its id and back
  returns \<open>t\<close>. For every position \<open>i\<close> of the sequence of special tokens and source
  lines, mapping the id \<open>i\<close> to its token and back returns \<open>i\<close> exactly when the string
  at position \<open>i\<close> does not occur again at a later position. So, when no string occurs
  twice in the sequence, the size is its length and the round trip returns every id
  below the size.
\<close>

theorem roundtrip_through_table:
  assumes "fs fn = Some lines"
    and "Vocab_init fs fn pad bos eos unk = Inr v"
  shows "(\<forall>t\<in>set (pad # bos # eos # unk # lines).
            map_ids_to_tokens_py v (fst (map_tokens_to_ids_py v (Scalar t))) = Scalar t) \<and>
         (\<forall>i<4 + length lines.
            fst (map_tokens_to_ids_py v (map_ids_to_tokens_py v (Scalar (int i)))) = Scalar (int i)
            \<longleftrightarrow> (\<forall>j. i < j \<and> j < 4 + length lines \<longrightarrow>
                   (pad # bos # eos # unk # lines) ! j \<noteq> (pad # bos # eos # unk # lines) ! i)) \<and>
         (distinct (pad # bos # eos # unk # lines) \<longrightarrow>
            Vocab_size v = 4 + length lines \<and>
            (\<forall>i<Vocab_size v.
               fst (map_tokens_to_ids_py v (map_ids_to_tokens_py v (Scalar (int i))))
                 = Scalar (int i)))"
proof (intro conjI ballI allI impI)
  let ?seq = "pad # bos # eos # unk # lines"
  fix t assume "t \<in> set ?seq"
  from built_token_present[OF assms this]
  obtain k where k: "k < 4 + length lines" "?seq ! k = t"
    "map_of (items (token_to_id_map_py v)) t = Some (int k)" by blast
  then show "map_ids_to_tokens_py v (fst (map_tokens_to_ids_py v (Scalar t))) = Scalar t"
    by (simp add: built_scalar_id[OF assms] built_scalar_token[OF assms])
next
  fix i assume "i < 4 + length lines"
  then show "fst (map_tokens_to_ids_py v (map_ids_to_tokens_py v (Scalar (int i)))) = Scalar (int i)
            \<longleftrightarrow> (\<forall>j. i < j \<and> j < 4 + length lines \<longrightarrow>
                   (pad # bos # eos # unk # lines) ! j \<noteq> (pad # bos # eos # unk # lines) ! i)"
    by (rule built_roundtrip_id[OF assms])
next
  assume "distinct (pad # bos # eos # unk # lines)"
  then show "Vocab_size v = 4 + length lines" by (rule built_size_distinct[OF assms])
next
  let ?seq = "pad # bos # eos # unk # lines"
  fix i assume d: "distinct ?seq" and "i < Vocab_size v"
  with built_size_distinct[OF assms d] have i: "i < 4 + length lines" by simp
  have "\<forall>j. i < j \<and> j < 4 + length lines \<longrightarrow> ?seq ! j \<noteq> ?seq ! i"
  proof (intro allI impI)
    fix j assume "i < j \<and> j < 4 + length lines"
    with d i show "?seq ! j \<noteq> ?seq ! i"
      using nth_eq_iff_index_eq[OF d, of j i] by simp
  qed
  with built_roundtrip_id[OF assms i]
  show "fst (map_tokens_to_ids_py v (map_ids_to_tokens_py v (Scalar (int i)))) = Scalar (int i)"
    by blast
qed

text \<open>
  C6, witness: the table of \<^verbatim>\<open>vocab.txt\<close>: the token \<^verbatim>\<open>dog\<close> and the id 4.
\<close>

theorem roundtrip_through_table_witness:
  "example_fs ''vocab.txt'' = Some [''cat'', ''dog''] \<and>
   Vocab_init example_fs ''vocab.txt'' PAD BOS EOS UNK = Inr cat_dog_vocab \<and>
   map_ids_to_tokens_py cat_dog_vocab (fst (map_tokens_to_ids_py cat_dog_vocab (Scalar ''dog'')))
     = Scalar ''dog'' \<and>
   Vocab_size cat_dog_vocab = 6 \<and>
   fst (map_tokens_to_ids_py cat_dog_vocab (map_ids_to_tokens_py cat_dog_vocab (Scalar 4)))
     = Scalar 4"
proof -
  have src: "example_fs ''vocab.txt'' = Some [''cat'', ''dog'']" by (simp add: example_fs_def)
  note t = roundtrip_through_table[OF src example_vocab_txt]
  have d: "distinct (PAD # BOS # EOS # UNK # [''cat'', ''dog''])"
    by (simp add: PAD_def BOS_def EOS_def UNK_def)
  from t have "map_ids_to_tokens_py cat_dog_vocab
      (fst (map_tokens_to_ids_py cat_dog_vocab (Scalar ''dog''))) = Scalar ''dog''"
    by simp
  moreover from t d have sz: "Vocab_size cat_dog_vocab = 4 + length [''cat'', ''dog'']"
    by blast
  moreover from t d have "\<forall>i<Vocab_size cat_dog_vocab.
      fst (map_tokens_to_ids_py cat_dog_vocab (map_ids_to_tokens_py cat_dog_vocab (Scalar (int i))))
        = Scalar (int i)" by blast
  with sz have "fst (map_tokens_to_ids_py cat_dog_vocab
      (map_ids_to_tokens_py cat_dog_vocab (Scalar (int 4)))) = Scalar (int 4)"
    by (elim allE[of _ 4]) simp
  ultimately show ?thesis using src example_vocab_txt by simp
qed

subsection \<open>C7: the size of the table\<close>

text \<open>
  C7, as stated, fails: the special tokens are keys of the same dictionary, so they
  count once for each distinct string. The empty file read with \<^verbatim>\<open>x\<close> both as padding
  and as unknown token gives a table of size 3.
\<close>

theorem size_counterexample:
  "example_fs ''empty.txt'' = Some [] \<and>
   Vocab_init example_fs ''empty.txt'' ''x'' BOS EOS ''x'' = Inr pad_unk_vocab \<and>
   Vocab_size pad_unk_vocab = 3 \<and>
   Vocab_size pad_unk_vocab \<noteq> 4 + card (set ([] :: string list))"
  by code_simp

text \<open>
  C7, amended: for every built table, the size is the number of distinct special-token
  strings plus the number of distinct source lines; it is 4 plus the number of distinct
  source lines when the four special tokens are pairwise distinct, and the number of
  lines plus 4 when moreover no line is listed twice. A line listed more than once has
  the one id 4 plus the position of its last occurrence in the file.
\<close>

theorem size_counts_distinct_tokens:
  assumes "fs fn = Some lines"
    and "Vocab_init fs fn pad bos eos unk = Inr v"
  shows "Vocab_size v = card (set [pad, bos, eos, unk]) + card (set lines) \<and>
         (distinct [pad, bos, eos, unk] \<longrightarrow> Vocab_size v = 4 + card (set lines)) \<and>
         (distinct [pad, bos, eos, unk] \<and> distinct lines \<longrightarrow> Vocab_size v = length lines + 4) \<and>
         (\<forall>j<length lines.
            (\<forall>k. j < k \<and> k < length lines \<longrightarrow> lines ! k \<noteq> lines ! j) \<longrightarrow>
            map_of (items (token_to_id_map_py v)) (lines ! j) = Some (4 + int j))"
proof (intro conjI allI impI)
  show sz: "Vocab_size v = card (set [pad, bos, eos, unk]) + card (set lines)"
    by (rule built_size_split[OF assms])
  show "Vocab_size v = 4 + card (set lines)" if "distinct [pad, bos, eos, unk]"
    using distinct_card[OF that] sz by simp
  show "Vocab_size v = length lines + 4" if "distinct [pad, bos, eos, unk] \<and> distinct lines"
  proof -
    from that have a: "distinct [pad, bos, eos, unk]" and b: "distinct lines" by blast+
    from distinct_card[OF a] distinct_card[OF b] sz show ?thesis by simp
  qed
  show "map_of (items (token_to_id_map_py v)) (lines ! j) = Some (4 + int j)"
    if "j < length lines" "\<forall>k. j < k \<and> k < length lines \<longrightarrow> lines ! k \<noteq> lines ! j" for j
    by (rule built_line_id[OF assms that])
qed

text \<open>
  C7, witness: the file that lists \<^verbatim>\<open>a\<close> twice, with the default special tokens:
  the size is 5 and \<^verbatim>\<open>a\<close> has the id 5.
\<close>

theorem size_counts_distinct_tokens_witness:
  "example_fs ''dup.txt'' = Some [''a'', ''a''] \<and>
   Vocab_init example_fs ''dup.txt'' PAD BOS EOS UNK = Inr dup_vocab \<and>
   distinct [PAD, BOS, EOS, UNK] \<and>
   Vocab_size dup_vocab = 5 \<and>
   map_of (items (token_to_id_map_py dup_vocab)) ''a'' = Some 5"
proof -
  have src: "example_fs ''dup.txt'' = Some [''a'', ''a'']" by (simp add: example_fs_def)
  have d: "distinct [PAD, BOS, EOS, UNK]" by (simp add: PAD_def BOS_def EOS_def UNK_def)
  note t = size_counts_distinct_tokens[OF src example_dup_txt]
  from t d have "Vocab_size dup_vocab = 4 + card (set [''a'', ''a''])" by blast
  then have sz: "Vocab_size dup_vocab = 5" by simp
  from t have "\<forall>j<length [''a'', ''a''].
            (\<forall>k. j < k \<and> k < length [''a'', ''a''] \<longrightarrow> [''a'', ''a''] ! k \<noteq> [''a'', ''a''] ! j) \<longrightarrow>
            map_of (items (token_to_id_map_py dup_vocab)) ([''a'', ''a''] ! j) = Some (4 + int j)"
    by blast
  then have "(\<forall>k. 1 < k \<and> k < length [''a'', ''a''] \<longrightarrow> [''a'', ''a''] ! k \<noteq> [''a'', ''a''] ! 1) \<longrightarrow>
            map_of (items (token_to_id_map_py dup_vocab)) ([''a'', ''a''] ! 1) = Some (4 + int 1)"
    by (elim allE[of _ 1]) simp
  then have "map_of (items (token_to_id_map_py dup_vocab)) ''a'' = Some 5" by simp
  with src example_dup_txt d sz show ?thesis by simp
qed

subsection \<open>C8: the lookups keep the nesting\<close>

text \<open>
  C8: for every built table, the lookup of a nested sequence of tokens replaces each leaf
  by its id, or by the id of the unknown token when it is not a key, and changes nothing
  else: the result has the shape of the input, and a list of two lists \<open>[[a, b], [c]]\<close>
  is mapped to the list of two lists of the ids of \<open>a\<close>, \<open>b\<close> and of \<open>c\<close>. The lookup
  of a nested sequence of ids does the same with tokens and the unknown token string.
\<close>

theorem lookups_preserve_shape:
  assumes "fs fn = Some lines"
    and "Vocab_init fs fn pad bos eos unk = Inr v"
  shows "map_tokens_to_ids_py v toks =
           (map_nested (\<lambda>t. case map_of (items (token_to_id_map_py v)) t of
                               Some i \<Rightarrow> i | None \<Rightarrow> fst (unk_token_id v)) toks, v) \<and>
         shape (fst (map_tokens_to_ids_py v toks)) = shape toks \<and>
         fst (map_tokens_to_ids_py v (Sequence [Sequence [Scalar a, Scalar b], Sequence [Scalar c]])) =
           Sequence [Sequence [fst (map_tokens_to_ids_py v (Scalar a)),
                               fst (map_tokens_to_ids_py v (Scalar b))],
                     Sequence [fst (map_tokens_to_ids_py v (Scalar c))]] \<and>
         map_ids_to_tokens_py v ids =
           map_nested (\<lambda>i. case map_of (items (id_to_token_map_py v)) i of
                               Some t \<Rightarrow> t | None \<Rightarrow> unk_token v) ids \<and>
         shape (map_ids_to_tokens_py v ids) = shape ids \<and>
         map_ids_to_tokens_py v (Sequence [Sequence [Scalar i, Scalar j], Sequence [Scalar k]]) =
           Sequence [Sequence [map_ids_to_tokens_py v (Scalar i), map_ids_to_tokens_py v (Scalar j)],
                     Sequence [map_ids_to_tokens_py v (Scalar k)]]"
proof (intro conjI)
  note m = built_map_tokens_to_ids_py[OF assms]
  show "map_tokens_to_ids_py v toks =
           (map_nested (\<lambda>t. case map_of (items (token_to_id_map_py v)) t of
                               Some i \<Rightarrow> i | None \<Rightarrow> fst (unk_token_id v)) toks, v)"
    by (simp add: m built_unk_token_id[OF assms] dict_lookup_map_nested
          cong: option.case_cong)
  show "shape (fst (map_tokens_to_ids_py v toks)) = shape toks"
    by (simp add: m dict_lookup_map_nested shape_map_nested)
  show "fst (map_tokens_to_ids_py v (Sequence [Sequence [Scalar a, Scalar b], Sequence [Scalar c]])) =
           Sequence [Sequence [fst (map_tokens_to_ids_py v (Scalar a)),
                               fst (map_tokens_to_ids_py v (Scalar b))],
                     Sequence [fst (map_tokens_to_ids_py v (Scalar c))]]"
    by (simp add: m)
  show "map_ids_to_tokens_py v ids =
           map_nested (\<lambda>i. case map_of (items (id_to_token_map_py v)) i of
                               Some t \<Rightarrow> t | None \<Rightarrow> unk_token v) ids"
    by (simp add: map_ids_to_tokens_py_def dict_lookup_map_nested)
  show "shape (map_ids_to_tokens_py v ids) = shape ids"
    by (simp add: map_ids_to_tokens_py_def dict_lookup_map_nested shape_map_nested)
  show "map_ids_to_tokens_py v (Sequence [Sequence [Scalar i, Scalar j], Sequence [Scalar k]]) =
           Sequence [Sequence [map_ids_to_tokens_py v (Scalar i), map_ids_to_tokens_py v (Scalar j)],
                     Sequence [map_ids_to_tokens_py v (Scalar k)]]"
    by (simp add: map_ids_to_tokens_py_def)
qed

text \<open>
  C8, witness: \<open>[[cat, fish], [dog]]\<close> and \<open>[[4, 7], [0]]\<close> in the table of
  \<^verbatim>\<open>vocab.txt\<close>.
\<close>

theorem lookups_preserve_shape_witness:
  "example_fs ''vocab.txt'' = Some [''cat'', ''dog''] \<and>
   Vocab_init example_fs ''vocab.txt'' PAD BOS EOS UNK = Inr cat_dog_vocab \<and>
   map_tokens_to_ids_py cat_dog_vocab
     (Sequence [Sequence [Scalar ''cat'', Scalar ''fish''], Sequence [Scalar ''dog'']]) =
     (Sequence [Sequence [Scalar 4, Scalar 3], Sequence [Scalar 5]], cat_dog_vocab) \<and>
   map_ids_to_tokens_py cat_dog_vocab
     (Sequence [Sequence [Scalar 4, Scalar 7], Sequence [Scalar 0]]) =
     Sequence [Sequence [Scalar ''cat'', Scalar ''<UNK>''], Sequence [Scalar ''<PAD>'']]"
proof -
  have src: "example_fs ''vocab.txt'' = Some [''cat'', ''dog'']" by (simp add: example_fs_def)
  have u: "unk_token_id cat_dog_vocab = (3, cat_dog_vocab)" by code_simp
  have maps: "items (token_to_id_map_py cat_dog_vocab) =
      [(''<PAD>'', 0), (''<BOS>'', 1), (''<EOS>'', 2), (''<UNK>'', 3), (''cat'', 4), (''dog'', 5)]"
    "items (id_to_token_map_py cat_dog_vocab) =
      [(0, ''<PAD>''), (1, ''<BOS>''), (2, ''<EOS>''), (3, ''<UNK>''), (4, ''cat''), (5, ''dog'')]"
    "unk_token cat_dog_vocab = ''<UNK>''"
    by (simp_all add: cat_dog_vocab_def)
  note t = lookups_preserve_shape[OF src example_vocab_txt,
      of "Sequence [Sequence [Scalar ''cat'', Scalar ''fish''], Sequence [Scalar ''dog'']]"
         "''cat''" "''fish''" "''dog''"
         "Sequence [Sequence [Scalar 4, Scalar 7], Sequence [Scalar 0]]" 4 7 0]
  from t have "map_tokens_to_ids_py cat_dog_vocab
      (Sequence [Sequence [Scalar ''cat'', Scalar ''fish''], Sequence [Scalar ''dog'']]) =
      (map_nested (\<lambda>t. case map_of (items (token_to_id_map_py cat_dog_vocab)) t of
                           Some i \<Rightarrow> i | None \<Rightarrow> fst (unk_token_id cat_dog_vocab))
         (Sequence [Sequence [Scalar ''cat'', Scalar ''fish''], Sequence [Scalar ''dog'']]),
       cat_dog_vocab)"
    by blast
  then have toks: "map_tokens_to_ids_py cat_dog_vocab
      (Sequence [Sequence [Scalar ''cat'', Scalar ''fish''], Sequence [Scalar ''dog'']]) =
      (Sequence [Sequence [Scalar 4, Scalar 3], Sequence [Scalar 5]], cat_dog_vocab)"
    by (simp add: u maps)
  from t have "map_ids_to_tokens_py cat_dog_vocab
      (Sequence [Sequence [Scalar 4, Scalar 7], Sequence [Scalar 0]]) =
      map_nested (\<lambda>i. case map_of (items (id_to_token_map_py cat_dog_vocab)) i of
                          Some t \<Rightarrow> t | None \<Rightarrow> unk_token cat_dog_vocab)
        (Sequence [Sequence [Scalar 4, Scalar 7], Sequence [Scalar 0]])"
    by blast
  then have ids: "map_ids_to_tokens_py cat_dog_vocab
      (Sequence [Sequence [Scalar 4, Scalar 7], Sequence [Scalar 0]]) =
      Sequence [Sequence [Scalar ''cat'', Scalar ''<UNK>''], Sequence [Scalar ''<PAD>'']]"
    by (simp add: maps)
  from src example_vocab_txt toks ids show ?thesis by simp
qed

subsection \<open>C9: every position has its token\<close>

text \<open>
  C9: for every built table and every \<open>i\<close> from 0 up to, but not including, 4 plus the
  number of source lines, \<open>i\<close> is a key of the id-to-token dictionary and its lookup
  returns the string at position \<open>i\<close> of the sequence of special tokens and source
  lines. The size is never larger than the length of that sequence, and is strictly
  smaller when a line is listed twice.
\<close>

theorem id_map_covers_whole_sequence:
  assumes "fs fn = Some lines"
    and "Vocab_init fs fn pad bos eos unk = Inr v"
  shows "(\<forall>i. 0 \<le> i \<and> i < 4 + int (length lines) \<longrightarrow>
            map_of (items (id_to_token_map_py v)) i = Some ((pad # bos # eos # unk # lines) ! nat i) \<and>
            map_ids_to_tokens_py v (Scalar i) = Scalar ((pad # bos # eos # unk # lines) ! nat i)) \<and>
         Vocab_size v \<le> 4 + length lines \<and>
         (\<not> distinct lines \<longrightarrow> Vocab_size v < 4 + length lines)"
proof (intro conjI allI impI)
  let ?seq = "pad # bos # eos # unk # lines"
  fix i assume i: "0 \<le> i \<and> i < 4 + int (length lines)"
  then show "map_of (items (id_to_token_map_py v)) i = Some (?seq ! nat i)"
    by (simp add: built_id_lookup[OF assms])
  from i show "map_ids_to_tokens_py v (Scalar i) = Scalar (?seq ! nat i)"
    by (simp add: built_scalar_id[OF assms])
next
  let ?seq = "pad # bos # eos # unk # lines"
  have le: "card (set ?seq) \<le> length ?seq" by (rule card_length)
  then show "Vocab_size v \<le> 4 + length lines" unfolding built_size[OF assms] by simp
  assume "\<not> distinct lines"
  then have "\<not> distinct ?seq" by simp
  then have "card (set ?seq) \<noteq> length ?seq" using card_distinct by blast
  with le show "Vocab_size v < 4 + length lines" unfolding built_size[OF assms] by simp
qed

text \<open>
  C9, witness: the id 5 in the table of the file that lists \<^verbatim>\<open>a\<close> twice, whose size
  is below 6.
\<close>

theorem id_map_covers_whole_sequence_witness:
  "example_fs ''dup.txt'' = Some [''a'', ''a''] \<and>
   Vocab_init example_fs ''dup.txt'' PAD BOS EOS UNK = Inr dup_vocab \<and>
   \<not> distinct [''a'', ''a''] \<and>
   Vocab_size dup_vocab < 6 \<and>
   map_of (items (id_to_token_map_py dup_vocab)) 5 = Some ''a'' \<and>
   map_ids_to_tokens_py dup_vocab (Scalar 5) = Scalar ''a''"
proof -
  have src: "example_fs ''dup.txt'' = Some [''a'', ''a'']" by (simp add: example_fs_def)
  note t = id_map_covers_whole_sequence[OF src example_dup_txt]
  from t have "Vocab_size dup_vocab < 6" by simp
  moreover from t have "\<forall>i. 0 \<le> i \<and> i < 4 + int (length [''a'', ''a'']) \<longrightarrow>
            map_of (items (id_to_token_map_py dup_vocab)) i = Some ((PAD # BOS # EOS # UNK # [''a'', ''a'']) ! nat i) \<and>
            map_ids_to_tokens_py dup_vocab (Scalar i) = Scalar ((PAD # BOS # EOS # UNK # [''a'', ''a'']) ! nat i)"
    by blast
  then have "map_of (items (id_to_token_map_py dup_vocab)) 5 = Some ''a'' \<and>
     map_ids_to_tokens_py dup_vocab (Scalar 5) = Scalar ''a''"
    by (elim allE[of _ 5]) (simp add: eval_nat_numeral)
  ultimately show ?thesis using src example_dup_txt by simp
qed

subsection \<open>C10: special tokens are not compared with one another\<close>

text \<open>
  C10: the constructor checks the special tokens against the source lines only. Whenever
  the padding token equals the unknown token and no special token is a source line,
  construction succeeds and \<^verbatim>\<open>pad_token_id\<close> is 3, the slot of the unknown token.
\<close>

theorem pad_equal_unk_takes_unknown_slot:
  assumes "fs fn = Some lines"
    and "pad = unk"
    and "pad \<notin> set lines" "bos \<notin> set lines" "eos \<notin> set lines"
  shows "\<exists>v. Vocab_init fs fn pad bos eos unk = Inr v \<and> pad_token_id v = (3, v)"
proof -
  from assms obtain v where v: "Vocab_init fs fn pad bos eos unk = Inr v"
    using Vocab_init_succeeds[of fs fn lines bos eos unk pad] by auto
  have "pad_token_id v = unk_token_id v"
    using Vocab_init_Inr(2)[OF assms(1) v] assms(2)
    by (simp add: pad_token_id_def unk_token_id_def)
  with built_unk_token_id[OF assms(1) v] v show ?thesis by simp
qed

text \<open>
  C10, witness: the empty file, with \<^verbatim>\<open>x\<close> both as padding and as unknown token.
\<close>

theorem pad_equal_unk_takes_unknown_slot_witness:
  "example_fs ''empty.txt'' = Some [] \<and>
   Vocab_init example_fs ''empty.txt'' ''x'' BOS EOS ''x'' = Inr pad_unk_vocab \<and>
   pad_token_id pad_unk_vocab = (3, pad_unk_vocab)"
proof -
  have src: "example_fs ''empty.txt'' = Some []" by (simp add: example_fs_def)
  have init: "Vocab_init example_fs ''empty.txt'' ''x'' BOS EOS ''x'' = Inr pad_unk_vocab"
    by code_simp
  from pad_equal_unk_takes_unknown_slot[where fs = example_fs and fn = "''empty.txt''"
      and lines = "[]" and pad = "''x''" and unk = "''x''" and bos = BOS and eos = EOS] init src
  show ?thesis by simp
qed

end
